theory Spec2Isabelle
  imports Main "HOL-Library.Multiset"
begin

section \<open>Responder dashboard (Dashboard.jsx)\<close>

subsection \<open>Incidents and the sort of a response\<close>

text \<open>
  An incident as the backend sends it. \<open>id\<close> is an integer; the other fields are
  kept as the text that arrived (the renderer prints \<open>latitude\<close> and \<open>longitude\<close> raw in
  the table and hands them to \<open>parseFloat\<close> for the marker).
\<close>

record incident =
  id_inc :: int
  timestamp :: string
  severity :: string
  latitude :: string
  longitude :: string

text \<open>The comparator of \<open>fetchData\<close>: \<^verbatim>\<open>(a, b) => b.id - a.id\<close>.\<close>

definition compare_id :: "incident \<Rightarrow> incident \<Rightarrow> int" where
  "compare_id a b = id_inc b - id_inc a"

text \<open>
  \<^verbatim>\<open>Array.prototype.sort(cmp)\<close>: stable; a negative \<open>cmp a b\<close> puts \<open>a\<close> first, a positive
  one puts \<open>b\<close> first, zero keeps the order of arrival. For a consistent comparator the
  result does not depend on the engine's algorithm, so a stable insertion sort computes it.
\<close>

fun insert_js :: "('a \<Rightarrow> 'a \<Rightarrow> int) \<Rightarrow> 'a \<Rightarrow> 'a list \<Rightarrow> 'a list" where
  "insert_js cmp x [] = [x]"
| "insert_js cmp x (y # ys) = (if cmp x y \<le> 0 then x # y # ys else y # insert_js cmp x ys)"

fun sort_js :: "('a \<Rightarrow> 'a \<Rightarrow> int) \<Rightarrow> 'a list \<Rightarrow> 'a list" where
  "sort_js cmp [] = []"
| "sort_js cmp (x # xs) = insert_js cmp x (sort_js cmp xs)"

subsection \<open>The component's state and the poller\<close>

text \<open>
  The state of one Dashboard instance together with what its effect has outstanding in
  the browser: \<open>interval\<close> is the period of the armed \<^verbatim>\<open>setInterval\<close> timer (\<open>None\<close> before
  it is set and after \<^verbatim>\<open>clearInterval\<close>), \<open>pending\<close> counts GET requests in flight,
  \<open>fetches\<close> counts the GET requests issued so far and \<open>errors\<close> the
  \<^verbatim>\<open>console.error\<close> calls.
\<close>

record dashboard =
  incidents :: "incident list"
  mounted :: bool
  interval :: "nat option"
  pending :: nat
  fetches :: nat
  errors :: nat

text \<open>
  The outcome of one GET: \<open>Data xs\<close> when the promise resolves and \<open>response.data\<close> is
  the array \<open>xs\<close>; \<open>Failure\<close> for everything that makes the \<^verbatim>\<open>try\<close> block throw (a
  rejected request, a non-success status, a body that has no \<^verbatim>\<open>sort\<close>).
\<close>

datatype response = Data "incident list" | Failure

text \<open>
  The setter that \<^verbatim>\<open>useState\<close> returns. The state cell belongs to the mounted
  instance: React drops an update that is requested for an instance that has been unmounted.
\<close>

definition setIncidents :: "incident list \<Rightarrow> dashboard \<Rightarrow> dashboard" where
  "setIncidents v d = (if mounted d then d\<lparr>incidents := v\<rparr> else d)"

text \<open>\<open>fetchData\<close> up to its \<^verbatim>\<open>await\<close>: the request is issued.\<close>

definition fetchData_request :: "dashboard \<Rightarrow> dashboard" where
  "fetchData_request d = d\<lparr>pending := Suc (pending d), fetches := Suc (fetches d)\<rparr>"

text \<open>\<open>fetchData\<close> after its \<^verbatim>\<open>await\<close>: sort and store, or log in the \<^verbatim>\<open>catch\<close>.\<close>

definition fetchData_resume :: "response \<Rightarrow> dashboard \<Rightarrow> dashboard" where
  "fetchData_resume r d =
     (case r of
        Data xs \<Rightarrow> setIncidents (sort_js compare_id xs) d
      | Failure \<Rightarrow> d\<lparr>errors := Suc (errors d)\<rparr>)"

text \<open>
  Mounting: \<^verbatim>\<open>useState([])\<close>, then the effect runs \<^verbatim>\<open>fetchData()\<close> and
  \<^verbatim>\<open>setInterval(fetchData, 5000)\<close>.
\<close>

definition mount :: dashboard where
  "mount = (fetchData_request
     \<lparr>incidents = [], mounted = True, interval = None, pending = 0, fetches = 0, errors = 0\<rparr>)
     \<lparr>interval := Some 5000\<rparr>"

text \<open>The effect's cleanup, run by React when the component unmounts.\<close>

definition unmount :: "dashboard \<Rightarrow> dashboard" where
  "unmount d = d\<lparr>mounted := False, interval := None\<rparr>"

text \<open>
  What can happen to a Dashboard instance: the interval timer fires (only an armed timer
  does), one of the requests in flight settles, the component unmounts.
\<close>

datatype dash_event = Tick | Settled response | Unmount

fun dash_step :: "dash_event \<Rightarrow> dashboard \<Rightarrow> dashboard" where
  "dash_step Tick d = (if interval d = None then d else fetchData_request d)"
| "dash_step (Settled r) d =
     (if pending d = 0 then d else fetchData_resume r (d\<lparr>pending := pending d - 1\<rparr>))"
| "dash_step Unmount d = (if mounted d then unmount d else d)"

definition dash_run :: "dash_event list \<Rightarrow> dashboard \<Rightarrow> dashboard" where
  "dash_run es d = fold dash_step es d"

subsection \<open>The renderer\<close>

definition getSeverityClass :: "string \<Rightarrow> string" where
  "getSeverityClass sev =
     (if sev = ''High'' then ''severity-pill severity-high''
      else if sev = ''Medium'' then ''severity-pill severity-medium''
      else ''severity-pill severity-low'')"

text \<open>
  One marker and one table row per incident, in the order of the stored list. The
  localized time strings and the parsed floats are left out: a marker keeps the two texts
  that go to \<^verbatim>\<open>parseFloat\<close>.
\<close>

record marker =
  marker_key :: int
  marker_lat :: string
  marker_lon :: string
  marker_severity :: string

record log_row =
  row_key :: int
  row_badge_class :: string
  row_badge_text :: string
  row_location :: string

definition markers :: "dashboard \<Rightarrow> marker list" where
  "markers d = map (\<lambda>i. \<lparr>marker_key = id_inc i, marker_lat = latitude i,
     marker_lon = longitude i, marker_severity = severity i\<rparr>) (incidents d)"

definition table_rows :: "dashboard \<Rightarrow> log_row list" where
  "table_rows d = map (\<lambda>i. \<lparr>row_key = id_inc i,
     row_badge_class = getSeverityClass (severity i), row_badge_text = severity i,
     row_location = latitude i @ '', '' @ longitude i\<rparr>) (incidents d)"

definition descending :: "int list \<Rightarrow> bool" where
  "descending ks = sorted_wrt (\<lambda>a b. b \<le> a) ks"

subsection \<open>What holds of every state of a mounted or unmounted instance\<close>

text \<open>The timer is armed with its period exactly while the component is mounted.\<close>

definition dash_inv :: "dashboard \<Rightarrow> bool" where
  "dash_inv d = (interval d = (if mounted d then Some 5000 else None))"

text \<open>A sample incident with a given id.\<close>

definition inc :: "int \<Rightarrow> incident" where
  "inc k = \<lparr>id_inc = k, timestamp = ''2024-01-01T00:00:00'', severity = ''High'',
     latitude = ''12.9'', longitude = ''77.6''\<rparr>"

section \<open>Reporter application (App.jsx)\<close>

subsection \<open>Data\<close>

text \<open>
  \<open>response.data\<close> of the alert endpoint. \<open>confidence\<close> is a JavaScript number, kept
  as its decimal text; \<open>details?.incident_id\<close> may be absent.
\<close>

record sos_result =
  res_severity :: string
  res_confidence :: string
  res_incident_id :: "string option"

record blob =
  blob_parts :: "string list"
  blob_type :: string

text \<open>The three parts that \<open>sendAlert\<close> appends to its \<^verbatim>\<open>FormData\<close>.\<close>

record form_data =
  audio_file :: blob
  audio_filename :: string
  location_data :: string
  text_message :: string

text \<open>
  What one triggered capture has outstanding in the browser, with the variables its
  pending callback closes over. Latitude and longitude are JavaScript numbers that the code
  only interpolates into a template string, so they are kept as their decimal text. The
  text is \<open>textMessage\<close> of the render whose \<open>handleSOS\<close> was clicked: \<open>startRecording\<close>
  and \<open>sendAlert\<close> are the closures of that same render.
  \<^item> \<open>AwaitingPosition\<close>: \<^verbatim>\<open>getCurrentPosition\<close> has not called back;
  \<^item> \<open>AwaitingStream\<close>: \<open>startRecording\<close> waits for \<^verbatim>\<open>getUserMedia\<close>;
  \<^item> \<open>Recording\<close>: the recorder has started and the 3000 ms timer is pending;
  \<^item> \<open>Stopping\<close>: the timer has called \<^verbatim>\<open>stop()\<close>, the \<open>stop\<close> event is pending;
  \<^item> \<open>Posting\<close>: \<open>sendAlert\<close> waits for \<^verbatim>\<open>axios.post\<close>;
  \<^item> \<open>Finished\<close>: nothing is pending.

  The recorder is stopped by the timer's \<^verbatim>\<open>stop()\<close> only; a stream that ends by itself
  before the timer fires is not part of the model.
\<close>

datatype session =
    AwaitingPosition string
  | AwaitingStream string string string
  | Recording string string string "string list"
  | Stopping string string string "string list"
  | Posting
  | Finished

text \<open>
  The seven state cells of \<open>App\<close>, followed by what the component has outstanding or
  has emitted: the captures triggered so far (a capture is named by its position in
  \<open>sessions\<close>), the POST requests issued (capture and body), the messages shown with
  \<^verbatim>\<open>alert\<close> and the number of \<^verbatim>\<open>console.error\<close> calls.
\<close>

record app =
  view :: string
  isAuthenticated :: bool
  passwordInput :: string
  status :: string
  isRecording :: bool
  result :: "sos_result option"
  textMessage :: string
  sessions :: "session list"
  posts :: "(nat \<times> form_data) list"
  alerts :: "string list"
  console_errors :: nat

definition init_app :: app where
  "init_app = \<lparr>view = ''user'', isAuthenticated = False, passwordInput = '''',
     status = ''Ready'', isRecording = False, result = None, textMessage = '''',
     sessions = [], posts = [], alerts = [], console_errors = 0\<rparr>"

text \<open>The status literals that start with an emoji, as UTF-8 bytes.\<close>

definition status_recording :: string where
  "status_recording =
     [CHR 0xF0, CHR 0x9F, CHR 0x8E, CHR 0x99, CHR 0xEF, CHR 0xB8, CHR 0x8F]
       @ '' Recording Audio (3s)...''"

definition status_sending :: string where
  "status_sending = [CHR 0xF0, CHR 0x9F, CHR 0x93, CHR 0xA1] @ '' Sending Alert to AI...''"

definition status_help :: string where
  "status_help = [CHR 0xE2, CHR 0x9C, CHR 0x85] @ '' Help is on the way!''"

definition status_server_error :: string where
  "status_server_error = [CHR 0xE2, CHR 0x9D, CHR 0x8C] @ '' Server Error''"

subsection \<open>The handlers\<close>

text \<open>
  \<open>handleSOS\<close>; the flag says whether \<^verbatim>\<open>navigator.geolocation\<close> exists. With it, the
  position request is issued and a new capture waits for its callback.
\<close>

definition handleSOS :: "bool \<Rightarrow> app \<Rightarrow> app" where
  "handleSOS geolocation s =
     (let s1 = s\<lparr>isRecording := True, status := ''Getting Location...''\<rparr> in
      if \<not> geolocation
      then s1\<lparr>alerts := alerts s1 @ [''Geolocation is not supported by your browser''],
              isRecording := False\<rparr>
      else s1\<lparr>sessions := sessions s1 @ [AwaitingPosition (textMessage s)]\<rparr>)"

text \<open>The error callback handed to \<^verbatim>\<open>getCurrentPosition\<close>.\<close>

definition position_error :: "nat \<Rightarrow> app \<Rightarrow> app" where
  "position_error k s =
     s\<lparr>status := ''Error: Location Access Denied'', isRecording := False,
       sessions := (sessions s)[k := Finished]\<rparr>"

text \<open>\<open>startRecording\<close> up to its \<^verbatim>\<open>await\<close>.\<close>

definition startRecording :: "nat \<Rightarrow> string \<Rightarrow> string \<Rightarrow> string \<Rightarrow> app \<Rightarrow> app" where
  "startRecording k lat lon txt s =
     s\<lparr>status := status_recording, sessions := (sessions s)[k := AwaitingStream lat lon txt]\<rparr>"

text \<open>
  \<open>startRecording\<close> once the stream is there: an empty \<open>audioChunks\<close>, the recorder
  started, the timer set.
\<close>

definition startRecording_started :: "nat \<Rightarrow> string \<Rightarrow> string \<Rightarrow> string \<Rightarrow> app \<Rightarrow> app" where
  "startRecording_started k lat lon txt s =
     s\<lparr>sessions := (sessions s)[k := Recording lat lon txt []]\<rparr>"

text \<open>The \<^verbatim>\<open>catch\<close> of \<open>startRecording\<close>.\<close>

definition startRecording_catch :: "nat \<Rightarrow> app \<Rightarrow> app" where
  "startRecording_catch k s =
     s\<lparr>status := ''Error: Mic Access Denied'', isRecording := False,
       sessions := (sessions s)[k := Finished]\<rparr>"

text \<open>The timer callback: \<^verbatim>\<open>mediaRecorder.stop(); setIsRecording(false)\<close>.\<close>

definition timer_callback ::
  "nat \<Rightarrow> string \<Rightarrow> string \<Rightarrow> string \<Rightarrow> string list \<Rightarrow> app \<Rightarrow> app" where
  "timer_callback k lat lon txt chunks s =
     s\<lparr>isRecording := False, sessions := (sessions s)[k := Stopping lat lon txt chunks]\<rparr>"

text \<open>\<open>sendAlert\<close> up to its \<^verbatim>\<open>await\<close>: the body is built and the POST is issued.\<close>

definition sendAlert :: "nat \<Rightarrow> string \<Rightarrow> string \<Rightarrow> blob \<Rightarrow> string \<Rightarrow> app \<Rightarrow> app" where
  "sendAlert k lat lon audioBlob txt s =
     (let formData = \<lparr>audio_file = audioBlob, audio_filename = ''sos_audio.wav'',
            location_data = lat @ '','' @ lon,
            text_message = (if txt = '''' then ''React App SOS Triggered'' else txt)\<rparr>
      in s\<lparr>status := status_sending, posts := posts s @ [(k, formData)],
           sessions := (sessions s)[k := Posting]\<rparr>)"

text \<open>The \<open>onstop\<close> handler of the recorder.\<close>

definition onstop :: "nat \<Rightarrow> string \<Rightarrow> string \<Rightarrow> string \<Rightarrow> string list \<Rightarrow> app \<Rightarrow> app" where
  "onstop k lat lon txt chunks s =
     sendAlert k lat lon \<lparr>blob_parts = chunks, blob_type = ''audio/wav''\<rparr> txt s"

text \<open>\<open>sendAlert\<close> after its \<^verbatim>\<open>await\<close>: the response is stored, or the \<^verbatim>\<open>catch\<close> runs.\<close>

definition sendAlert_resolved :: "nat \<Rightarrow> sos_result \<Rightarrow> app \<Rightarrow> app" where
  "sendAlert_resolved k r s =
     s\<lparr>result := Some r, status := status_help, sessions := (sessions s)[k := Finished]\<rparr>"

definition sendAlert_catch :: "nat \<Rightarrow> app \<Rightarrow> app" where
  "sendAlert_catch k s =
     s\<lparr>console_errors := Suc (console_errors s), status := status_server_error,
       sessions := (sessions s)[k := Finished]\<rparr>"

definition handleLogin :: "app \<Rightarrow> app" where
  "handleLogin s =
     (if passwordInput s = ''police123''
      then s\<lparr>isAuthenticated := True, view := ''admin''\<rparr>
      else s\<lparr>alerts := alerts s @ [''Wrong Password!'']\<rparr>)"

definition onLogout :: "app \<Rightarrow> app" where
  "onLogout s = s\<lparr>isAuthenticated := False, view := ''user''\<rparr>"

subsection \<open>What is rendered\<close>

datatype screen = LoginScreen | DashboardScreen | SosScreen

definition screen :: "app \<Rightarrow> screen" where
  "screen s =
     (if view s = ''admin'' \<and> \<not> isAuthenticated s then LoginScreen
      else if view s = ''admin'' \<and> isAuthenticated s then DashboardScreen
      else SosScreen)"

text \<open>The SOS button can be clicked when it is rendered and not \<open>disabled\<close>.\<close>

definition sos_enabled :: "app \<Rightarrow> bool" where
  "sos_enabled s = (screen s = SosScreen \<and> \<not> isRecording s)"

text \<open>
  The result card of the SOS screen, shown when \<open>result\<close> is set. The confidence
  percentage (floating point) is left out.
\<close>

record result_card =
  card_class :: string
  card_severity :: string
  card_incident :: string

definition result_severity_class :: "string \<Rightarrow> string" where
  "result_severity_class sev =
     ''result-severity '' @ (if sev = ''High'' then ''severity-high'' else ''severity-low'')"

definition render_result :: "app \<Rightarrow> result_card option" where
  "render_result s =
     (if screen s = SosScreen
      then map_option (\<lambda>r. \<lparr>card_class = result_severity_class (res_severity r),
             card_severity = res_severity r,
             card_incident = ''#'' @ (case res_incident_id r of
                 None \<Rightarrow> ''N/A''
               | Some i \<Rightarrow> if i = '''' then ''N/A'' else i)\<rparr>) (result s)
      else None)"

subsection \<open>Events\<close>

text \<open>
  Everything that can run a handler of \<open>App\<close>: the user's actions on the rendered
  screen and the callbacks of the captures. An event that cannot occur in a state (a
  control that is not rendered or is disabled, a callback of a capture that does not wait
  for it) leaves the state as it is.
\<close>

datatype event =
    ClickSOS
  | PositionSuccess nat string string
  | PositionError nat
  | StreamGranted nat
  | StreamFailed nat
  | DataAvailable nat string
  | TimerFired nat
  | RecorderStopped nat
  | PostResolved nat sos_result
  | PostRejected nat
  | EditText string
  | ClickDashboard
  | EditPassword string
  | ClickLogin
  | ClickBack
  | ClickLogout

definition session_at :: "app \<Rightarrow> nat \<Rightarrow> session" where
  "session_at s k = (if k < length (sessions s) then sessions s ! k else Finished)"

fun step :: "bool \<Rightarrow> event \<Rightarrow> app \<Rightarrow> app" where
  "step geo ClickSOS s = (if sos_enabled s then handleSOS geo s else s)"
| "step geo (PositionSuccess k lat lon) s =
     (case session_at s k of AwaitingPosition txt \<Rightarrow> startRecording k lat lon txt s | _ \<Rightarrow> s)"
| "step geo (PositionError k) s =
     (case session_at s k of AwaitingPosition txt \<Rightarrow> position_error k s | _ \<Rightarrow> s)"
| "step geo (StreamGranted k) s =
     (case session_at s k of
        AwaitingStream lat lon txt \<Rightarrow> startRecording_started k lat lon txt s | _ \<Rightarrow> s)"
| "step geo (StreamFailed k) s =
     (case session_at s k of AwaitingStream lat lon txt \<Rightarrow> startRecording_catch k s | _ \<Rightarrow> s)"
| "step geo (DataAvailable k c) s =
     (case session_at s k of
        Recording lat lon txt chunks \<Rightarrow>
          s\<lparr>sessions := (sessions s)[k := Recording lat lon txt (chunks @ [c])]\<rparr>
      | Stopping lat lon txt chunks \<Rightarrow>
          s\<lparr>sessions := (sessions s)[k := Stopping lat lon txt (chunks @ [c])]\<rparr>
      | _ \<Rightarrow> s)"
| "step geo (TimerFired k) s =
     (case session_at s k of
        Recording lat lon txt chunks \<Rightarrow> timer_callback k lat lon txt chunks s | _ \<Rightarrow> s)"
| "step geo (RecorderStopped k) s =
     (case session_at s k of
        Stopping lat lon txt chunks \<Rightarrow> onstop k lat lon txt chunks s | _ \<Rightarrow> s)"
| "step geo (PostResolved k r) s =
     (case session_at s k of Posting \<Rightarrow> sendAlert_resolved k r s | _ \<Rightarrow> s)"
| "step geo (PostRejected k) s =
     (case session_at s k of Posting \<Rightarrow> sendAlert_catch k s | _ \<Rightarrow> s)"
| "step geo (EditText t) s =
     (if screen s = SosScreen \<and> \<not> isRecording s then s\<lparr>textMessage := t\<rparr> else s)"
| "step geo ClickDashboard s = (if screen s = SosScreen then s\<lparr>view := ''admin''\<rparr> else s)"
| "step geo (EditPassword p) s =
     (if screen s = LoginScreen then s\<lparr>passwordInput := p\<rparr> else s)"
| "step geo ClickLogin s = (if screen s = LoginScreen then handleLogin s else s)"
| "step geo ClickBack s = (if screen s = LoginScreen then s\<lparr>view := ''user''\<rparr> else s)"
| "step geo ClickLogout s = (if screen s = DashboardScreen then onLogout s else s)"

definition run :: "bool \<Rightarrow> event list \<Rightarrow> app \<Rightarrow> app" where
  "run geo es s = fold (step geo) es s"

text \<open>A capture that has not yet reached the timer callback.\<close>

fun capturing :: "session \<Rightarrow> bool" where
  "capturing (AwaitingPosition txt) = True"
| "capturing (AwaitingStream lat lon txt) = True"
| "capturing (Recording lat lon txt chunks) = True"
| "capturing _ = False"

text \<open>A capture that has not yet reached \<open>sendAlert\<close>.\<close>

fun unsent :: "session \<Rightarrow> bool" where
  "unsent Posting = False"
| "unsent Finished = False"
| "unsent _ = True"

subsection \<open>Invariants of the captures\<close>

text \<open>
  \<open>busy\<close> counts the captures that have not reached the timer callback; the flag
  \<open>isRecording\<close> is set exactly while there is one. A capture occurs at most once in
  \<open>posts\<close>, and only after it has reached \<open>sendAlert\<close>.
\<close>

definition busy :: "session list \<Rightarrow> nat" where
  "busy xs = length (filter capturing xs)"

definition capture_inv :: "app \<Rightarrow> bool" where
  "capture_inv s = (busy (sessions s) = (if isRecording s then 1 else 0))"

definition post_inv :: "app \<Rightarrow> bool" where
  "post_inv s = (distinct (map fst (posts s)) \<and>
     (\<forall>k \<in> fst ` set (posts s). k < length (sessions s) \<and> \<not> unsent (sessions s ! k)))"

text \<open>
  A complete capture up to the POST, and a response of the alert endpoint with a given
  severity.
\<close>

definition capture_trace :: "event list" where
  "capture_trace = [ClickSOS, PositionSuccess 0 ''12.9'' ''77.6'', StreamGranted 0,
     TimerFired 0, DataAvailable 0 ''RIFF'', RecorderStopped 0]"

definition sample_result :: "string \<Rightarrow> sos_result" where
  "sample_result sev = \<lparr>res_severity = sev, res_confidence = ''0.92'', res_incident_id = Some ''42''\<rparr>"

section \<open>Properties of the dashboard\<close>

lemma set_insert_js: "set (insert_js cmp x xs) = insert x (set xs)"
  by (induction xs) auto

lemma mset_insert_js: "mset (insert_js cmp x xs) = add_mset x (mset xs)"
  by (induction xs) auto

lemma mset_sort_js: "mset (sort_js cmp xs) = mset xs"
  by (induction xs) (auto simp: mset_insert_js)

lemma descending_insert_js:
  "descending (map id_inc xs) \<Longrightarrow> descending (map id_inc (insert_js compare_id x xs))"
  by (induction xs) (auto simp: descending_def compare_id_def set_insert_js)

lemma descending_sort_js: "descending (map id_inc (sort_js compare_id xs))"
proof (induction xs)
  case Nil
  show ?case by (simp add: descending_def)
next
  case (Cons x xs)
  then show ?case by (simp add: descending_insert_js)
qed

lemma descending_dash_step:
  "descending (map id_inc (incidents d)) \<Longrightarrow> descending (map id_inc (incidents (dash_step e d)))"
  by (cases e)
    (auto simp: fetchData_request_def fetchData_resume_def setIncidents_def unmount_def
      descending_sort_js split: response.splits)

lemma descending_dash_run:
  "descending (map id_inc (incidents d)) \<Longrightarrow> descending (map id_inc (incidents (dash_run es d)))"
  unfolding dash_run_def
  by (induction es arbitrary: d) (auto simp: descending_dash_step)

lemma descending_mount: "descending (map id_inc (incidents mount))"
  by (simp add: mount_def fetchData_request_def descending_def)

lemma marker_keys: "map marker_key (markers d) = map id_inc (incidents d)"
  by (simp add: markers_def comp_def)

lemma row_keys: "map row_key (table_rows d) = map id_inc (incidents d)"
  by (simp add: table_rows_def comp_def)

lemma dash_inv_mount: "dash_inv mount"
  by (simp add: dash_inv_def mount_def fetchData_request_def)

lemma dash_inv_step: "dash_inv d \<Longrightarrow> dash_inv (dash_step e d)"
  by (cases e)
    (auto simp: dash_inv_def fetchData_request_def fetchData_resume_def setIncidents_def
      unmount_def split: response.splits)

lemma dash_inv_run: "dash_inv d \<Longrightarrow> dash_inv (dash_run es d)"
  unfolding dash_run_def by (induction es arbitrary: d) (auto simp: dash_inv_step)

lemma dash_run_append: "dash_run (es @ es') d = dash_run es' (dash_run es d)"
  by (simp add: dash_run_def)

lemma dash_run_Cons: "dash_run (e # es) d = dash_run es (dash_step e d)"
  by (simp add: dash_run_def)

lemma unmounted_step:
  "\<not> mounted d \<Longrightarrow> interval d = None \<Longrightarrow>
     \<not> mounted (dash_step e d) \<and> interval (dash_step e d) = None \<and>
     incidents (dash_step e d) = incidents d \<and> fetches (dash_step e d) = fetches d"
  by (cases e)
    (auto simp: fetchData_resume_def setIncidents_def split: response.splits)

lemma unmounted_run:
  "\<not> mounted d \<Longrightarrow> interval d = None \<Longrightarrow>
     incidents (dash_run es d) = incidents d \<and> fetches (dash_run es d) = fetches d"
proof (induction es arbitrary: d)
  case Nil
  show ?case by (simp add: dash_run_def)
next
  case (Cons e es)
  from unmounted_step [OF Cons.prems, of e] Cons.IH [of "dash_step e d"]
  show ?case by (simp add: dash_run_Cons)
qed

lemma after_Unmount:
  "dash_inv d \<Longrightarrow> \<not> mounted (dash_step Unmount d) \<and> interval (dash_step Unmount d) = None
     \<and> incidents (dash_step Unmount d) = incidents d \<and> fetches (dash_step Unmount d) = fetches d"
  by (auto simp: dash_inv_def unmount_def)

text \<open>
  Claim C1. Whatever the backend has returned so far and in whatever order, the incident
  list the dashboard stores is sorted by id, largest first, and so are the keys of the
  table rows and of the markers rendered from it. A successful fetch on the mounted
  component stores the sorted response: the same incidents, in descending order of id.
\<close>

theorem fetch_sorted_desc:
  "descending (map id_inc (incidents (dash_run es mount))) \<and>
   descending (map row_key (table_rows (dash_run es mount))) \<and>
   descending (map marker_key (markers (dash_run es mount))) \<and>
   (mounted d \<and> 0 < pending d \<longrightarrow>
      incidents (dash_step (Settled (Data xs)) d) = sort_js compare_id xs \<and>
      mset (incidents (dash_step (Settled (Data xs)) d)) = mset xs \<and>
      descending (map id_inc (incidents (dash_step (Settled (Data xs)) d))))"
  by (simp add: row_keys marker_keys descending_dash_run descending_mount fetchData_resume_def
      setIncidents_def mset_sort_js descending_sort_js)

theorem fetch_sorted_desc_witness:
  "mounted mount \<and> 0 < pending mount \<and>
   map id_inc (incidents (dash_step (Settled (Data [inc 5, inc 7])) mount)) = [7, 5] \<and>
   map row_key (table_rows (dash_run [Settled (Data [inc 5, inc 7])] mount)) = [7, 5] \<and>
   descending (map row_key (table_rows (dash_run [Settled (Data [inc 5, inc 7])] mount)))"
  using fetch_sorted_desc [of "[Settled (Data [inc 5, inc 7])]" mount "[inc 5, inc 7]"]
  by (simp add: mount_def fetchData_request_def compare_id_def inc_def dash_run_def
      fetchData_resume_def setIncidents_def table_rows_def)

text \<open>
  Claim C8. \<open>getSeverityClass\<close> gives the high style exactly for \<open>High\<close>, the medium
  style exactly for \<open>Medium\<close>, and the low style for every other string.
\<close>

theorem getSeverityClass_three_way:
  "(getSeverityClass sev = ''severity-pill severity-high'') = (sev = ''High'') \<and>
   (getSeverityClass sev = ''severity-pill severity-medium'') = (sev = ''Medium'') \<and>
   (getSeverityClass sev = ''severity-pill severity-low'') = (sev \<noteq> ''High'' \<and> sev \<noteq> ''Medium'')"
  by (simp add: getSeverityClass_def)

theorem getSeverityClass_three_way_witness:
  "getSeverityClass ''High'' = ''severity-pill severity-high'' \<and>
   getSeverityClass ''Medium'' = ''severity-pill severity-medium'' \<and>
   getSeverityClass ''Critical'' = ''severity-pill severity-low'' \<and>
   getSeverityClass '''' = ''severity-pill severity-low'' \<and>
   getSeverityClass ''low'' = ''severity-pill severity-low''"
  using getSeverityClass_three_way [of "''High''"] getSeverityClass_three_way [of "''Medium''"]
    getSeverityClass_three_way [of "''Critical''"] getSeverityClass_three_way [of "''''"]
    getSeverityClass_three_way [of "''low''"]
  by simp

text \<open>
  Claim C7. In every state the dashboard can reach, a fetch that fails leaves the incident
  list, the table rows and the markers as they were and only logs (one more
  \<^verbatim>\<open>console.error\<close> when a request was in flight); the timer is untouched, so while
  the component is mounted it stays armed with its 5000 ms period and the next tick issues
  the next request.
\<close>

theorem failed_fetch_keeps_incidents:
  "incidents (dash_step (Settled Failure) (dash_run es mount)) = incidents (dash_run es mount) \<and>
   table_rows (dash_step (Settled Failure) (dash_run es mount)) = table_rows (dash_run es mount) \<and>
   markers (dash_step (Settled Failure) (dash_run es mount)) = markers (dash_run es mount) \<and>
   interval (dash_step (Settled Failure) (dash_run es mount)) = interval (dash_run es mount) \<and>
   (0 < pending (dash_run es mount) \<longrightarrow>
      errors (dash_step (Settled Failure) (dash_run es mount)) = Suc (errors (dash_run es mount))) \<and>
   (mounted (dash_run es mount) \<longrightarrow>
      interval (dash_step (Settled Failure) (dash_run es mount)) = Some 5000 \<and>
      fetches (dash_step Tick (dash_step (Settled Failure) (dash_run es mount))) =
        Suc (fetches (dash_run es mount)))"
  using dash_inv_run [OF dash_inv_mount, of es]
  by (auto simp: fetchData_resume_def fetchData_request_def table_rows_def markers_def dash_inv_def)

theorem failed_fetch_keeps_incidents_witness:
  "incidents (dash_run [Settled (Data [inc 5, inc 7]), Tick, Settled Failure] mount) =
     [inc 7, inc 5] \<and>
   errors (dash_run [Settled (Data [inc 5, inc 7]), Tick, Settled Failure] mount) = 1 \<and>
   interval (dash_run [Settled (Data [inc 5, inc 7]), Tick, Settled Failure] mount) = Some 5000 \<and>
   fetches (dash_run [Settled (Data [inc 5, inc 7]), Tick, Settled Failure, Tick] mount) = 3"
  using failed_fetch_keeps_incidents [of "[Settled (Data [inc 5, inc 7]), Tick]"]
  by (simp add: mount_def fetchData_request_def compare_id_def inc_def dash_run_def
      fetchData_resume_def setIncidents_def)

text \<open>
  Claim C3. Once the dashboard has unmounted, nothing that happens afterwards (timer
  ticks, requests that were in flight settling with data or failing) issues another
  request or changes the incident list: the number of requests issued and the stored list
  stay what they were at the unmount. The cleanup clears the timer; the result of a
  request still in flight reaches the setter of an unmounted instance, which React drops.
\<close>

theorem no_poll_after_unmount:
  "fetches (dash_run (es @ Unmount # es') mount) = fetches (dash_run es mount) \<and>
   incidents (dash_run (es @ Unmount # es') mount) = incidents (dash_run es mount)"
proof -
  let ?d = "dash_run es mount"
  have inv: "dash_inv ?d" by (rule dash_inv_run [OF dash_inv_mount])
  have u: "\<not> mounted (dash_step Unmount ?d)" "interval (dash_step Unmount ?d) = None"
    "incidents (dash_step Unmount ?d) = incidents ?d" "fetches (dash_step Unmount ?d) = fetches ?d"
    using after_Unmount [OF inv] by simp_all
  from unmounted_run [OF u(1) u(2), of es'] u(3) u(4)
  show ?thesis by (simp add: dash_run_append dash_run_Cons)
qed

theorem no_poll_after_unmount_witness:
  "pending (dash_run [Settled (Data [inc 5]), Tick] mount) = 1 \<and>
   fetches (dash_run ([Settled (Data [inc 5]), Tick] @ Unmount # [Tick, Settled (Data [inc 9]), Tick]) mount) = 2 \<and>
   incidents (dash_run ([Settled (Data [inc 5]), Tick] @ Unmount # [Tick, Settled (Data [inc 9]), Tick]) mount) = [inc 5]"
  using no_poll_after_unmount [of "[Settled (Data [inc 5]), Tick]" "[Tick, Settled (Data [inc 9]), Tick]"]
  by (simp add: mount_def fetchData_request_def compare_id_def inc_def dash_run_def
      fetchData_resume_def setIncidents_def)

section \<open>Properties of the reporter application\<close>

lemma busy_append: "busy (xs @ [x]) = busy xs + (if capturing x then 1 else 0)"
  by (simp add: busy_def)

lemma busy_update:
  "k < length xs \<Longrightarrow>
     busy (xs[k := y]) + (if capturing (xs ! k) then 1 else 0) =
     busy xs + (if capturing y then 1 else 0)"
proof (induction xs arbitrary: k)
  case Nil
  then show ?case by simp
next
  case (Cons x xs)
  show ?case
  proof (cases k)
    case 0
    then show ?thesis by (simp add: busy_def)
  next
    case (Suc j)
    with Cons.prems have "j < length xs" by simp
    from Cons.IH [OF this] Suc show ?thesis by (simp add: busy_def)
  qed
qed

lemma busy_same: "k < length xs \<Longrightarrow> capturing y = capturing (xs ! k) \<Longrightarrow> busy (xs[k := y]) = busy xs"
  using busy_update [of k xs y] by simp

lemma busy_leave:
  "k < length xs \<Longrightarrow> capturing (xs ! k) \<Longrightarrow> \<not> capturing y \<Longrightarrow> busy xs \<le> 1 \<Longrightarrow> busy (xs[k := y]) = 0"
  using busy_update [of k xs y] by simp

lemma session_atD: "session_at s k = x \<Longrightarrow> x \<noteq> Finished \<Longrightarrow> k < length (sessions s) \<and> sessions s ! k = x"
  by (auto simp: session_at_def split: if_splits)

lemma capture_inv_init: "capture_inv init_app"
  by (simp add: capture_inv_def init_app_def busy_def)

lemma capture_inv_step: "capture_inv s \<Longrightarrow> capture_inv (step geo e s)"
proof (cases e)
  case ClickSOS
  assume "capture_inv s"
  with ClickSOS show ?thesis
    by (auto simp: capture_inv_def sos_enabled_def handleSOS_def Let_def busy_append)
next
  case (PositionSuccess k lat lon)
  assume "capture_inv s"
  with PositionSuccess show ?thesis
    by (auto simp: capture_inv_def startRecording_def busy_same split: session.splits
        dest!: session_atD)
next
  case (PositionError k)
  assume "capture_inv s"
  with PositionError show ?thesis
    by (auto simp: capture_inv_def position_error_def busy_leave split: session.splits if_splits
        dest!: session_atD)
next
  case (StreamGranted k)
  assume "capture_inv s"
  with StreamGranted show ?thesis
    by (auto simp: capture_inv_def startRecording_started_def busy_same split: session.splits
        dest!: session_atD)
next
  case (StreamFailed k)
  assume "capture_inv s"
  with StreamFailed show ?thesis
    by (auto simp: capture_inv_def startRecording_catch_def busy_leave split: session.splits if_splits
        dest!: session_atD)
next
  case (DataAvailable k c)
  assume "capture_inv s"
  with DataAvailable show ?thesis
    by (auto simp: capture_inv_def busy_same split: session.splits
        dest!: session_atD)
next
  case (TimerFired k)
  assume "capture_inv s"
  with TimerFired show ?thesis
    by (auto simp: capture_inv_def timer_callback_def busy_leave split: session.splits if_splits
        dest!: session_atD)
next
  case (RecorderStopped k)
  assume "capture_inv s"
  with RecorderStopped show ?thesis
    by (auto simp: capture_inv_def onstop_def sendAlert_def busy_same split: session.splits
        dest!: session_atD)
next
  case (PostResolved k r)
  assume "capture_inv s"
  with PostResolved show ?thesis
    by (auto simp: capture_inv_def sendAlert_resolved_def busy_same split: session.splits
        dest!: session_atD)
next
  case (PostRejected k)
  assume "capture_inv s"
  with PostRejected show ?thesis
    by (auto simp: capture_inv_def sendAlert_catch_def busy_same split: session.splits
        dest!: session_atD)
qed (auto simp: capture_inv_def handleLogin_def onLogout_def)

lemma run_Nil: "run geo [] s = s"
  by (simp add: run_def)

lemma run_Cons: "run geo (e # es) s = run geo es (step geo e s)"
  by (simp add: run_def)

lemma capture_inv_run: "capture_inv s \<Longrightarrow> capture_inv (run geo es s)"
  by (induction es arbitrary: s) (auto simp: run_Nil run_Cons capture_inv_step)

lemma busy_pos: "k < length xs \<Longrightarrow> capturing (xs ! k) \<Longrightarrow> 0 < busy xs"
  unfolding busy_def by (metis filter_empty_conv length_greater_0_conv nth_mem)

lemma post_inv_init: "post_inv init_app"
  by (simp add: post_inv_def init_app_def)

lemma post_inv_update:
  "post_inv s \<Longrightarrow> k < length (sessions s) \<Longrightarrow> \<not> unsent y \<Longrightarrow>
     posts s' = posts s \<Longrightarrow> sessions s' = (sessions s)[k := y] \<Longrightarrow> post_inv s'"
  by (auto simp: post_inv_def nth_list_update)

lemma post_inv_keep:
  "post_inv s \<Longrightarrow> k < length (sessions s) \<Longrightarrow> unsent (sessions s ! k) \<Longrightarrow>
     posts s' = posts s \<Longrightarrow> sessions s' = (sessions s)[k := y] \<Longrightarrow> post_inv s'"
  by (auto simp: post_inv_def nth_list_update)

lemma post_inv_same:
  "post_inv s \<Longrightarrow> posts s' = posts s \<Longrightarrow> sessions s' = sessions s \<Longrightarrow> post_inv s'"
  by (simp add: post_inv_def)

lemma post_inv_grow:
  "post_inv s \<Longrightarrow> posts s' = posts s \<Longrightarrow> sessions s' = sessions s @ [x] \<Longrightarrow> post_inv s'"
  by (auto simp: post_inv_def nth_append)

lemma post_inv_send:
  "post_inv s \<Longrightarrow> k < length (sessions s) \<Longrightarrow> unsent (sessions s ! k) \<Longrightarrow>
     posts s' = posts s @ [(k, f)] \<Longrightarrow> sessions s' = (sessions s)[k := Posting] \<Longrightarrow> post_inv s'"
  by (auto simp: post_inv_def nth_list_update)

lemma post_inv_step: "post_inv s \<Longrightarrow> post_inv (step geo e s)"
proof (cases e)
  case ClickSOS
  assume "post_inv s"
  then show ?thesis unfolding ClickSOS
    by (auto simp: handleSOS_def Let_def elim: post_inv_same post_inv_grow)
next
  case (PositionSuccess k lat lon)
  assume "post_inv s"
  then show ?thesis unfolding PositionSuccess
    by (auto simp: startRecording_def split: session.splits dest!: session_atD
        elim!: post_inv_keep [where k = k])
next
  case (PositionError k)
  assume "post_inv s"
  then show ?thesis unfolding PositionError
    by (auto simp: position_error_def split: session.splits dest!: session_atD
        elim!: post_inv_keep [where k = k])
next
  case (StreamGranted k)
  assume "post_inv s"
  then show ?thesis unfolding StreamGranted
    by (auto simp: startRecording_started_def split: session.splits dest!: session_atD
        elim!: post_inv_keep [where k = k])
next
  case (StreamFailed k)
  assume "post_inv s"
  then show ?thesis unfolding StreamFailed
    by (auto simp: startRecording_catch_def split: session.splits dest!: session_atD
        elim!: post_inv_keep [where k = k])
next
  case (DataAvailable k c)
  assume "post_inv s"
  then show ?thesis unfolding DataAvailable
    by (auto split: session.splits dest!: session_atD elim!: post_inv_keep [where k = k])
next
  case (TimerFired k)
  assume "post_inv s"
  then show ?thesis unfolding TimerFired
    by (auto simp: timer_callback_def split: session.splits dest!: session_atD
        elim!: post_inv_keep [where k = k])
next
  case (RecorderStopped k)
  assume "post_inv s"
  then show ?thesis unfolding RecorderStopped
    by (auto simp: onstop_def sendAlert_def split: session.splits dest!: session_atD
        elim!: post_inv_send [where k = k])
next
  case (PostResolved k r)
  assume "post_inv s"
  then show ?thesis unfolding PostResolved
    by (auto simp: sendAlert_resolved_def split: session.splits dest!: session_atD
        elim!: post_inv_update [where k = k and y = Finished])
next
  case (PostRejected k)
  assume "post_inv s"
  then show ?thesis unfolding PostRejected
    by (auto simp: sendAlert_catch_def split: session.splits dest!: session_atD
        elim!: post_inv_update [where k = k and y = Finished])
qed (auto simp: handleLogin_def onLogout_def elim: post_inv_same)

lemma post_inv_run: "post_inv s \<Longrightarrow> post_inv (run geo es s)"
  by (induction es arbitrary: s) (auto simp: run_Nil run_Cons post_inv_step)

lemma distinct_once: "distinct (map fst ps) \<Longrightarrow> length (filter (\<lambda>p. fst p = k) ps) \<le> 1"
  by (induction ps) (auto simp: filter_empty_conv image_iff)

lemma posts_step:
  "posts (step geo e s) = posts s \<or>
   (\<exists>k lat lon txt chunks. e = RecorderStopped k \<and> session_at s k = Stopping lat lon txt chunks \<and>
      posts (step geo e s) = posts s @ [(k,
        \<lparr>audio_file = \<lparr>blob_parts = chunks, blob_type = ''audio/wav''\<rparr>,
         audio_filename = ''sos_audio.wav'', location_data = lat @ '','' @ lon,
         text_message = (if txt = '''' then ''React App SOS Triggered'' else txt)\<rparr>)])"
  by (cases e)
    (auto simp: handleSOS_def Let_def startRecording_def position_error_def
      startRecording_started_def startRecording_catch_def timer_callback_def onstop_def
      sendAlert_def sendAlert_resolved_def sendAlert_catch_def handleLogin_def onLogout_def
      split: session.splits)

lemma result_step:
  "result (step geo e s) = result s \<or> (\<exists>k r. e = PostResolved k r \<and> session_at s k = Posting)"
  by (cases e)
    (auto simp: handleSOS_def Let_def startRecording_def position_error_def
      startRecording_started_def startRecording_catch_def timer_callback_def onstop_def
      sendAlert_def sendAlert_resolved_def sendAlert_catch_def handleLogin_def onLogout_def
      split: session.splits)

lemmas app_defs = run_def init_app_def sos_enabled_def screen_def session_at_def handleSOS_def
  Let_def startRecording_def position_error_def startRecording_started_def
  startRecording_catch_def timer_callback_def onstop_def sendAlert_def sendAlert_resolved_def
  sendAlert_catch_def handleLogin_def onLogout_def capture_trace_def sample_result_def

text \<open>
  Claim C2, as stated, fails. After a capture has gone through location, microphone, the
  3000 ms timer and the recorder's stop event, its POST is in flight and the SOS button is
  enabled; a click there starts a second capture beside the first.
\<close>

theorem trigger_enabled_while_uploading:
  "session_at (run True capture_trace init_app) 0 = Posting \<and>
   sos_enabled (run True capture_trace init_app) \<and>
   sessions (run True (capture_trace @ [ClickSOS]) init_app) = [Posting, AwaitingPosition '''']"
  by (simp add: app_defs)

text \<open>
  Claim C2, amended. In every reachable state, while a capture waits for its position, for
  the microphone or for the 3000 ms timer, \<open>isRecording\<close> is set, the SOS button is
  disabled and a click does nothing, and there is at most one such capture. The timer
  callback clears the flag when it stops the recorder, so the button is not held disabled
  while the recorded audio is submitted.
\<close>

theorem trigger_disabled_while_capturing:
  "(\<forall>k < length (sessions (run geo es init_app)).
      capturing (sessions (run geo es init_app) ! k) \<longrightarrow>
        isRecording (run geo es init_app) \<and> \<not> sos_enabled (run geo es init_app) \<and>
        step geo ClickSOS (run geo es init_app) = run geo es init_app) \<and>
   length (filter capturing (sessions (run geo es init_app))) \<le> 1 \<and>
   (session_at s k = Recording lat lon txt chunks \<longrightarrow>
      \<not> isRecording (step geo (TimerFired k) s) \<and>
      session_at (step geo (TimerFired k) s) k = Stopping lat lon txt chunks)"
proof -
  let ?s = "run geo es init_app"
  have inv: "busy (sessions ?s) = (if isRecording ?s then 1 else 0)"
    using capture_inv_run [OF capture_inv_init, of geo es] by (simp add: capture_inv_def)
  have a: "\<forall>k < length (sessions ?s). capturing (sessions ?s ! k) \<longrightarrow>
      isRecording ?s \<and> \<not> sos_enabled ?s \<and> step geo ClickSOS ?s = ?s"
  proof (intro allI impI)
    fix k assume "k < length (sessions ?s)" "capturing (sessions ?s ! k)"
    then have "0 < busy (sessions ?s)" by (rule busy_pos)
    with inv have "isRecording ?s" by (simp split: if_splits)
    then show "isRecording ?s \<and> \<not> sos_enabled ?s \<and> step geo ClickSOS ?s = ?s"
      by (simp add: sos_enabled_def)
  qed
  have b: "length (filter capturing (sessions ?s)) \<le> 1"
    using inv by (simp add: busy_def)
  have c: "session_at s k = Recording lat lon txt chunks \<longrightarrow>
      \<not> isRecording (step geo (TimerFired k) s) \<and>
      session_at (step geo (TimerFired k) s) k = Stopping lat lon txt chunks"
    by (auto simp: timer_callback_def session_at_def split: if_splits)
  from a b c show ?thesis by blast
qed

theorem trigger_disabled_while_capturing_witness:
  "capturing (sessions (run True [ClickSOS, PositionSuccess 0 ''12.9'' ''77.6'', StreamGranted 0] init_app) ! 0) \<and>
   isRecording (run True [ClickSOS, PositionSuccess 0 ''12.9'' ''77.6'', StreamGranted 0] init_app) \<and>
   \<not> sos_enabled (run True [ClickSOS, PositionSuccess 0 ''12.9'' ''77.6'', StreamGranted 0] init_app) \<and>
   session_at (run True [ClickSOS, PositionSuccess 0 ''12.9'' ''77.6'', StreamGranted 0] init_app) 0
     = Recording ''12.9'' ''77.6'' '''' [] \<and>
   \<not> isRecording (run True [ClickSOS, PositionSuccess 0 ''12.9'' ''77.6'', StreamGranted 0, TimerFired 0] init_app)"
  using trigger_disabled_while_capturing [of True
      "[ClickSOS, PositionSuccess 0 ''12.9'' ''77.6'', StreamGranted 0]"
      "run True [ClickSOS, PositionSuccess 0 ''12.9'' ''77.6'', StreamGranted 0] init_app"
      0 "''12.9''" "''77.6''" "''''" "[]"]
  by (simp add: app_defs)

text \<open>
  Claim C4, as stated, fails. Without geolocation the trigger leaves the status at the
  text it set on entry and shows an alert; a denied position request sets the denial
  status and shows no alert. The two outcomes differ in status and in alert.
\<close>

theorem unsupported_differs_from_denial:
  "status (step False ClickSOS init_app) = ''Getting Location...'' \<and>
   alerts (step False ClickSOS init_app) = [''Geolocation is not supported by your browser''] \<and>
   status (run True [ClickSOS, PositionError 0] init_app) = ''Error: Location Access Denied'' \<and>
   alerts (run True [ClickSOS, PositionError 0] init_app) = [] \<and>
   status (step False ClickSOS init_app) \<noteq> status (run True [ClickSOS, PositionError 0] init_app)"
  by (simp add: app_defs)

text \<open>
  Claim C4, amended. Without geolocation, \<open>handleSOS\<close> issues no position request and
  no POST, re-arms the trigger and reports through a blocking alert; it does not set the
  denial status. A denied position request sets the status to the denial text, re-arms
  the trigger, shows no alert and ends the capture.
\<close>

theorem geolocation_unsupported_outcome:
  "sessions (handleSOS False s) = sessions s \<and>
   posts (handleSOS False s) = posts s \<and>
   \<not> isRecording (handleSOS False s) \<and>
   alerts (handleSOS False s) = alerts s @ [''Geolocation is not supported by your browser''] \<and>
   status (handleSOS False s) \<noteq> ''Error: Location Access Denied'' \<and>
   (session_at s k = AwaitingPosition txt \<longrightarrow>
      status (step geo (PositionError k) s) = ''Error: Location Access Denied'' \<and>
      \<not> isRecording (step geo (PositionError k) s) \<and>
      alerts (step geo (PositionError k) s) = alerts s \<and>
      session_at (step geo (PositionError k) s) k = Finished)"
  by (auto simp: handleSOS_def Let_def position_error_def session_at_def split: if_splits)

theorem geolocation_unsupported_outcome_witness:
  "session_at (step True ClickSOS init_app) 0 = AwaitingPosition '''' \<and>
   status (step True (PositionError 0) (step True ClickSOS init_app)) = ''Error: Location Access Denied'' \<and>
   alerts (step True (PositionError 0) (step True ClickSOS init_app)) = [] \<and>
   sessions (handleSOS False init_app) = [] \<and>
   alerts (handleSOS False init_app) = [''Geolocation is not supported by your browser'']"
  using geolocation_unsupported_outcome [of init_app] 
    geolocation_unsupported_outcome [of "step True ClickSOS init_app" 0 "''''" True]
  by (simp add: app_defs)

text \<open>
  Claim C5, as stated, fails. After a submitted capture has stored its result, the next
  trigger leaves that result in place: the state is not the initial one.
\<close>

theorem result_kept_by_next_trigger:
  "result (run True (capture_trace @ [PostResolved 0 (sample_result ''High'')]) init_app)
     = Some (sample_result ''High'') \<and>
   sos_enabled (run True (capture_trace @ [PostResolved 0 (sample_result ''High'')]) init_app) \<and>
   result (run True (capture_trace @ [PostResolved 0 (sample_result ''High''), ClickSOS]) init_app)
     = Some (sample_result ''High'') \<and>
   result (run True (capture_trace @ [PostResolved 0 (sample_result ''High''), ClickSOS]) init_app)
     \<noteq> result init_app"
  by (simp add: app_defs)

text \<open>
  Claim C5, amended. A trigger sets the status to the location text and the recording flag
  (which stays set when geolocation is supported) and keeps the stored result and the text
  message of the previous capture. The stored result changes only when a POST in flight
  resolves, and then to the response of that POST.
\<close>

theorem trigger_keeps_result:
  "result (step geo ClickSOS s) = result s \<and>
   textMessage (step geo ClickSOS s) = textMessage s \<and>
   (sos_enabled s \<longrightarrow>
      status (step geo ClickSOS s) = ''Getting Location...'' \<and>
      isRecording (step geo ClickSOS s) = geo) \<and>
   (result (step geo e s) = result s \<or>
      (\<exists>k r. e = PostResolved k r \<and> session_at s k = Posting \<and> result (step geo e s) = Some r))"
proof -
  have "result (step geo e s) = result s \<or>
      (\<exists>k r. e = PostResolved k r \<and> session_at s k = Posting \<and> result (step geo e s) = Some r)"
    using result_step [of geo e s] by (auto simp: sendAlert_resolved_def)
  then show ?thesis by (auto simp: handleSOS_def Let_def)
qed

theorem trigger_keeps_result_witness:
  "sos_enabled (run True (capture_trace @ [PostResolved 0 (sample_result ''High'')]) init_app) \<and>
   result (step True ClickSOS (run True (capture_trace @ [PostResolved 0 (sample_result ''High'')]) init_app))
     = Some (sample_result ''High'') \<and>
   status (step True ClickSOS (run True (capture_trace @ [PostResolved 0 (sample_result ''High'')]) init_app))
     = ''Getting Location...'' \<and>
   result (step True (PostResolved 0 (sample_result ''Low'')) (run True capture_trace init_app))
     \<noteq> result (run True capture_trace init_app)"
  using trigger_keeps_result [of True
      "run True (capture_trace @ [PostResolved 0 (sample_result ''High'')]) init_app"]
    trigger_keeps_result [of True "run True capture_trace init_app"
      "PostResolved 0 (sample_result ''Low'')"]
  by (simp add: app_defs)

text \<open>
  Claim C6. In every reachable state each capture occurs at most once among the POST
  requests issued. A step issues a POST only as the stop handler of a capture that holds
  a latitude, a longitude and the recorded chunks, and the body is built from exactly
  these.
\<close>

theorem submit_once_with_location_and_audio:
  "length (filter (\<lambda>p. fst p = k) (posts (run geo es init_app))) \<le> 1 \<and>
   (posts (step geo e s) = posts s \<or>
    (\<exists>j lat lon txt chunks. e = RecorderStopped j \<and>
       session_at s j = Stopping lat lon txt chunks \<and>
       posts (step geo e s) = posts s @ [(j,
         \<lparr>audio_file = \<lparr>blob_parts = chunks, blob_type = ''audio/wav''\<rparr>,
          audio_filename = ''sos_audio.wav'', location_data = lat @ '','' @ lon,
          text_message = (if txt = '''' then ''React App SOS Triggered'' else txt)\<rparr>)]))"
proof -
  have "post_inv (run geo es init_app)" by (rule post_inv_run [OF post_inv_init])
  then have "distinct (map fst (posts (run geo es init_app)))" by (simp add: post_inv_def)
  then have "length (filter (\<lambda>p. fst p = k) (posts (run geo es init_app))) \<le> 1"
    by (rule distinct_once)
  with posts_step [of geo e s] show ?thesis by blast
qed

theorem submit_once_with_location_and_audio_witness:
  "posts (run True (capture_trace @ [RecorderStopped 0, TimerFired 0, PostRejected 0, RecorderStopped 0]) init_app) =
     [(0, \<lparr>audio_file = \<lparr>blob_parts = [''RIFF''], blob_type = ''audio/wav''\<rparr>,
          audio_filename = ''sos_audio.wav'', location_data = ''12.9,77.6'',
          text_message = ''React App SOS Triggered''\<rparr>)] \<and>
   length (filter (\<lambda>p. fst p = 0)
     (posts (run True (capture_trace @ [RecorderStopped 0, TimerFired 0, PostRejected 0, RecorderStopped 0]) init_app))) = 1 \<and>
   posts (step True (TimerFired 0) (run True [ClickSOS, PositionSuccess 0 ''12.9'' ''77.6'', StreamGranted 0] init_app)) = []"
  using submit_once_with_location_and_audio [of 0 True
      "capture_trace @ [RecorderStopped 0, TimerFired 0, PostRejected 0, RecorderStopped 0]"
      "TimerFired 0" "run True [ClickSOS, PositionSuccess 0 ''12.9'' ''77.6'', StreamGranted 0] init_app"]
  by (simp add: app_defs)

text \<open>
  Claim C9. \<open>handleLogin\<close> with the password input equal to the fixed secret sets
  \<open>isAuthenticated\<close> and moves the view to the dashboard; with any other input it shows
  the alert and changes neither the view, the flag nor the password input. From the login
  screen, typing a password and clicking Login therefore either authenticates (the secret)
  or stays on the login screen, unauthenticated, with the typed password still in the
  input.
\<close>

theorem handleLogin_secret:
  "(passwordInput s = ''police123'' \<longrightarrow>
      isAuthenticated (handleLogin s) \<and> view (handleLogin s) = ''admin'' \<and>
      screen (handleLogin s) = DashboardScreen) \<and>
   (passwordInput s \<noteq> ''police123'' \<longrightarrow>
      alerts (handleLogin s) = alerts s @ [''Wrong Password!''] \<and>
      view (handleLogin s) = view s \<and> isAuthenticated (handleLogin s) = isAuthenticated s \<and>
      passwordInput (handleLogin s) = passwordInput s \<and> screen (handleLogin s) = screen s) \<and>
   (screen s = LoginScreen \<longrightarrow>
      (if p = ''police123''
       then isAuthenticated (step geo ClickLogin (step geo (EditPassword p) s)) \<and>
            view (step geo ClickLogin (step geo (EditPassword p) s)) = ''admin''
       else alerts (step geo ClickLogin (step geo (EditPassword p) s)) = alerts s @ [''Wrong Password!''] \<and>
            screen (step geo ClickLogin (step geo (EditPassword p) s)) = LoginScreen \<and>
            \<not> isAuthenticated (step geo ClickLogin (step geo (EditPassword p) s)) \<and>
            passwordInput (step geo ClickLogin (step geo (EditPassword p) s)) = p))"
  by (auto simp: handleLogin_def screen_def split: if_splits)

theorem handleLogin_secret_witness:
  "screen (step True ClickDashboard init_app) = LoginScreen \<and>
   screen (run True [ClickDashboard, EditPassword ''police123'', ClickLogin] init_app) = DashboardScreen \<and>
   isAuthenticated (run True [ClickDashboard, EditPassword ''police123'', ClickLogin] init_app) \<and>
   screen (run True [ClickDashboard, EditPassword ''Police123'', ClickLogin] init_app) = LoginScreen \<and>
   alerts (run True [ClickDashboard, EditPassword ''Police123'', ClickLogin] init_app) = [''Wrong Password!''] \<and>
   passwordInput (run True [ClickDashboard, EditPassword ''Police123'', ClickLogin] init_app) = ''Police123''"
  using handleLogin_secret [of "step True (EditPassword ''police123'') (step True ClickDashboard init_app)"
      "''police123''" True]
    handleLogin_secret [of "step True (EditPassword ''Police123'') (step True ClickDashboard init_app)"
      "''Police123''" True]
  by (simp add: app_defs)

text \<open>
  Claim C10. The result card of the reporter screen gets the high style exactly for the
  severity \<open>High\<close> and the low style for every other severity, \<open>Medium\<close>
  included, where the dashboard's badge has a medium style; the card shows the severity text
  unchanged.
\<close>

theorem result_card_two_way:
  "(result_severity_class sev = ''result-severity severity-high'') = (sev = ''High'') \<and>
   (result_severity_class sev = ''result-severity severity-low'') = (sev \<noteq> ''High'') \<and>
   result_severity_class ''Medium'' = ''result-severity severity-low'' \<and>
   getSeverityClass ''Medium'' = ''severity-pill severity-medium'' \<and>
   (screen s = SosScreen \<and> result s = Some r \<longrightarrow>
      map_option card_class (render_result s) = Some (result_severity_class (res_severity r)) \<and>
      map_option card_severity (render_result s) = Some (res_severity r))"
  by (auto simp: result_severity_class_def getSeverityClass_def render_result_def)

theorem result_card_two_way_witness:
  "screen (run True (capture_trace @ [PostResolved 0 (sample_result ''Medium'')]) init_app) = SosScreen \<and>
   result (run True (capture_trace @ [PostResolved 0 (sample_result ''Medium'')]) init_app)
     = Some (sample_result ''Medium'') \<and>
   render_result (run True (capture_trace @ [PostResolved 0 (sample_result ''Medium'')]) init_app)
     = Some \<lparr>card_class = ''result-severity severity-low'', card_severity = ''Medium'',
         card_incident = ''#42''\<rparr>"
  using result_card_two_way [of "''Medium''"
      "run True (capture_trace @ [PostResolved 0 (sample_result ''Medium'')]) init_app"
      "sample_result ''Medium''"]
  by (simp add: app_defs render_result_def result_severity_class_def)

end
